theory Spec2Isabelle
  imports Complex_Main "HOL-Library.Multiset"
begin

section \<open>Identity allocator (locustfile\_distributed.py, class UserIDAllocator)\<close>

text \<open>
  Python integers are unbounded, so every field is an \<open>int\<close>. The lock only serialises
  the callers: one call is one atomic step on the record below. The logger is modelled by
  the list of records a call emits.
\<close>

record allocator =
  worker_index :: int
  worker_count :: int
  user_pool_size :: int
  counter :: int
  base_id :: int

datatype log_record =
  Warning_wrapped_around int
    \<comment> \<open>\<open>logger.warning(f"User ID wrapped around at worker {self.worker_index}")\<close>\<close>

definition UserIDAllocator :: "int \<Rightarrow> int \<Rightarrow> int \<Rightarrow> allocator" where
  "UserIDAllocator w c p =
     \<lparr>worker_index = w, worker_count = c, user_pool_size = p, counter = 0, base_id = w + 1\<rparr>"

definition get_next_user_id :: "allocator \<Rightarrow> int \<times> log_record list \<times> allocator" where
  "get_next_user_id a =
     (let user_id = base_id a + counter a * worker_count a;
          a1 = a\<lparr>counter := counter a + 1\<rparr>
      in if user_id > user_pool_size a1
         then (base_id a1, [Warning_wrapped_around (worker_index a1)], a1\<lparr>counter := 0\<rparr>)
         else (user_id, [], a1))"

definition get_user_count :: "allocator \<Rightarrow> int" where
  "get_user_count a = counter a"

text \<open>\<open>calls n a\<close>: the results of \<open>n\<close> successive calls of \<open>get_next_user_id\<close>
  (identity and log output of each), and the allocator they leave.\<close>

fun calls :: "nat \<Rightarrow> allocator \<Rightarrow> (int \<times> log_record list) list \<times> allocator" where
  "calls 0 a = ([], a)"
| "calls (Suc n) a =
     (case get_next_user_id a of
        (user_id, lg, a') \<Rightarrow>
          (case calls n a' of (rs, a'') \<Rightarrow> ((user_id, lg) # rs, a'')))"

text \<open>The identity returned by call number \<open>k\<close> (counted from 0) on a fresh allocator,
  and the log output of that call.\<close>

definition nth_call :: "int \<Rightarrow> int \<Rightarrow> int \<Rightarrow> nat \<Rightarrow> int \<times> log_record list" where
  "nth_call w c p k = fst (calls (Suc k) (UserIDAllocator w c p)) ! k"

text \<open>The allocator's working range: a counter that has not gone negative, a worker
  count that is not negative, and a base identity inside the pool.\<close>

definition inv_alloc :: "allocator \<Rightarrow> bool" where
  "inv_alloc a =
     (0 \<le> counter a \<and> 0 \<le> worker_count a \<and> 1 \<le> base_id a \<and> base_id a \<le> user_pool_size a)"


section \<open>Outcome events and exceptions (shared by the three locustfiles)\<close>

text \<open>
  A Python \<open>str\<close> built from ASCII literals is a \<open>string\<close>; a \<open>str\<close> that may hold any
  code point (a decoded payload, an exception message quoting it) is a list of code points.
  \<open>bytes\<close> are a \<open>string\<close> too: a HOL character is one byte. Calls of the logger
  in the sessions and listeners change no state and are left out.
\<close>

type_synonym pystr = "nat list"

definition ustr :: "string \<Rightarrow> pystr" where
  "ustr s = map of_char s"

text \<open>\<open>str(n)\<close> of an integer, as an f-string renders it.\<close>

fun nat_digits :: "nat \<Rightarrow> string" where
  "nat_digits n =
     (if n < 10 then [char_of (48 + n)]
      else nat_digits (n div 10) @ [char_of (48 + n mod 10)])"

declare nat_digits.simps [simp del]

definition str_int :: "int \<Rightarrow> string" where
  "str_int i = (if i < 0 then CHR ''-'' # nat_digits (nat (- i)) else nat_digits (nat i))"

text \<open>
  The exceptions that reach the handlers. \<open>MQTTConnectError\<close> is gmqtt's exception for a
  refused CONNACK and carries the return code; \<open>Futures_CancelledError\<close> is
  \<open>concurrent.futures.CancelledError\<close>. \<open>except Exception\<close> catches these two and
  \<open>Exception\<close>, \<open>TimeoutError\<close> and \<open>OSError\<close>; \<open>KeyboardInterrupt\<close> and asyncio's
  \<open>CancelledError\<close> derive from \<open>BaseException\<close> only.
\<close>

datatype py_exception =
    Exception pystr
  | TimeoutError
  | OSError string
  | MQTTConnectError int
  | Futures_CancelledError
  | KeyboardInterrupt
  | CancelledError

fun is_Exception :: "py_exception \<Rightarrow> bool" where
  "is_Exception (Exception m) = True"
| "is_Exception TimeoutError = True"
| "is_Exception (OSError m) = True"
| "is_Exception (MQTTConnectError rc) = True"
| "is_Exception Futures_CancelledError = True"
| "is_Exception KeyboardInterrupt = False"
| "is_Exception CancelledError = False"

datatype ctx_val = VStr string | VInt int | VBool bool

text \<open>Python's truth value of a context entry.\<close>

fun truthy :: "ctx_val \<Rightarrow> bool" where
  "truthy (VStr s) = (s \<noteq> [])"
| "truthy (VInt i) = (i \<noteq> 0)"
| "truthy (VBool b) = b"

text \<open>The keyword arguments of \<open>environment.events.request.fire\<close>; \<open>ctx\<close> is the \<open>context\<close>
  dict literal, in the order it is written.\<close>

record request_event =
  request_type :: string
  name :: string
  response_time :: real
  response_length :: nat
  exception :: "py_exception option"
  ctx :: "(string \<times> ctx_val) list"

datatype lib_call =
    Tls_set
  | Tls_insecure_set
  | Username_pw_set string
  | Set_auth_credentials string
  | Connect string int
  | Connect_ssl string int bool
  | Loop_start
  | Loop_stop
  | Subscribe string nat
  | Disconnect

text \<open>What the protocol library calls back while a connect attempt waits: \<open>on_connect\<close>
  with a return code, at a clock reading, or \<open>on_disconnect\<close>.\<close>

datatype callback = On_connect int real | On_disconnect

text \<open>
  What the network and the library do to one connect attempt is an input of the model.
  gmqtt reports a refused CONNACK by raising \<open>MQTTConnectError\<close> from its \<open>connect\<close>, and
  calls \<open>on_connect\<close> for an accepted one only; a CONNACK that never comes makes the
  \<open>wait_for\<close> around \<open>connect\<close> raise \<open>TimeoutError\<close>. The model admits every list of
  callbacks all the same: the sessions have a branch for each of them.
\<close>

datatype net_outcome =
    Connect_raises py_exception
      \<comment> \<open>the library's \<open>connect\<close> (or the \<open>wait_for\<close> around it) raises\<close>
  | Callbacks "callback list"
      \<comment> \<open>\<open>connect\<close> returns; these callbacks arrive before the wait for the
          acknowledgment ends\<close>

text \<open>
  Whether the broker's last word to a session is an acceptance: \<open>ends_connected c cbs\<close>
  follows the callbacks from a session that is connected (\<open>c\<close>) or not; an \<open>on_connect\<close>
  with return code 0 accepts, an \<open>on_disconnect\<close> takes the acceptance back. An attempt is
  acknowledged when the library's \<open>connect\<close> returns and the callbacks end in an
  acceptance; every other outcome is a failure of the attempt: a raised denial or transport
  error, a denying callback, no callback at all.
\<close>

fun ends_connected :: "bool \<Rightarrow> callback list \<Rightarrow> bool" where
  "ends_connected c [] = c"
| "ends_connected c (On_connect rc now # cbs) = ends_connected (c \<or> rc = 0) cbs"
| "ends_connected c (On_disconnect # cbs) = ends_connected False cbs"

fun acknowledged :: "net_outcome \<Rightarrow> bool" where
  "acknowledged (Connect_raises e) = False"
| "acknowledged (Callbacks cbs) = ends_connected False cbs"


section \<open>Alert statistics and their merge (locustfile.py)\<close>

text \<open>
  \<open>alert_stats\<close> is a module-level dict created with three literal keys and only ever
  updated at them: a record of the three values. What travels from a worker to the master
  (\<open>data\<close> and the copy stored under \<open>'alert_stats'\<close>) is read with \<open>in\<close> and \<open>.get\<close>,
  so it stays a map.
\<close>

record alert_stats =
  total_received :: int
  valid_alerts :: int
  invalid_alerts :: int

definition alert_stats_init :: alert_stats where
  "alert_stats_init = \<lparr>total_received = 0, valid_alerts = 0, invalid_alerts = 0\<rparr>"

definition copy :: "alert_stats \<Rightarrow> (string \<rightharpoonup> int)" where
  "copy st =
     [''total_received'' \<mapsto> total_received st,
      ''valid_alerts'' \<mapsto> valid_alerts st,
      ''invalid_alerts'' \<mapsto> invalid_alerts st]"

definition get_default :: "('k \<rightharpoonup> 'v) \<Rightarrow> 'k \<Rightarrow> 'v \<Rightarrow> 'v" where
  "get_default d k dflt = (case d k of None \<Rightarrow> dflt | Some v \<Rightarrow> v)"

definition on_report_to_master ::
  "alert_stats \<Rightarrow> (string \<rightharpoonup> (string \<rightharpoonup> int)) \<Rightarrow> (string \<rightharpoonup> (string \<rightharpoonup> int))" where
  "on_report_to_master st data = data(''alert_stats'' \<mapsto> copy st)"

definition on_worker_report ::
  "alert_stats \<Rightarrow> (string \<rightharpoonup> (string \<rightharpoonup> int)) \<Rightarrow> alert_stats" where
  "on_worker_report st data =
     (case data ''alert_stats'' of
        None \<Rightarrow> st
      | Some d \<Rightarrow>
          \<lparr>total_received = total_received st + get_default d ''total_received'' 0,
           valid_alerts = valid_alerts st + get_default d ''valid_alerts'' 0,
           invalid_alerts = invalid_alerts st + get_default d ''invalid_alerts'' 0\<rparr>)"

text \<open>One worker's snapshot merged into the master's totals: the worker reports, the
  master receives the report.\<close>

definition merge :: "alert_stats \<Rightarrow> alert_stats \<Rightarrow> alert_stats" where
  "merge totals snapshot = on_worker_report totals (on_report_to_master snapshot Map.empty)"

definition alert_on_request :: "alert_stats \<Rightarrow> request_event \<Rightarrow> alert_stats" where
  "alert_on_request st ev =
     (if request_type ev = ''MQTT'' \<and> name ev = ''alert_received'' then
        (let st1 = st\<lparr>total_received := total_received st + 1\<rparr>
         in if truthy (get_default (map_of (ctx ev)) ''valid'' (VBool False))
            then st1\<lparr>valid_alerts := valid_alerts st1 + 1\<rparr>
            else st1\<lparr>invalid_alerts := invalid_alerts st1 + 1\<rparr>)
      else st)"


section \<open>Subscriber session (locustfile.py, class MQTTSubscriberClient)\<close>

text \<open>
  \<open>msg.payload.decode('utf-8', errors='replace')\<close>, as CPython decodes: a well-formed
  sequence gives its code point; an ill-formed one gives one U+FFFD for the longest prefix
  that could still start a well-formed sequence (at least one byte), and decoding goes on
  at the byte after that prefix. Bytes and code points are numbers here.
\<close>

definition is_cont :: "nat \<Rightarrow> bool" where
  "is_cont b = (0x80 \<le> b \<and> b \<le> 0xBF)"

text \<open>How many continuation bytes a lead byte asks for (0: not a lead byte).\<close>

definition need :: "nat \<Rightarrow> nat" where
  "need b0 =
     (if 0xC2 \<le> b0 \<and> b0 \<le> 0xDF then 1
      else if 0xE0 \<le> b0 \<and> b0 \<le> 0xEF then 2
      else if 0xF0 \<le> b0 \<and> b0 \<le> 0xF4 then 3
      else 0)"

text \<open>The second byte is restricted by the lead byte: no overlong forms, no surrogates,
  nothing above U+10FFFF.\<close>

definition second_ok :: "nat \<Rightarrow> nat \<Rightarrow> bool" where
  "second_ok b0 b1 =
     (if b0 = 0xE0 then 0xA0 \<le> b1 \<and> b1 \<le> 0xBF
      else if b0 = 0xED then 0x80 \<le> b1 \<and> b1 \<le> 0x9F
      else if b0 = 0xF0 then 0x90 \<le> b1 \<and> b1 \<le> 0xBF
      else if b0 = 0xF4 then 0x80 \<le> b1 \<and> b1 \<le> 0x8F
      else is_cont b1)"

text \<open>The continuation bytes accepted after lead byte \<open>b0\<close>, at most \<open>need b0\<close> of them.\<close>

definition accepted :: "nat \<Rightarrow> nat list \<Rightarrow> nat list" where
  "accepted b0 bs =
     (case bs of
        [] \<Rightarrow> []
      | b1 # rest \<Rightarrow>
          if 0 < need b0 \<and> second_ok b0 b1
          then b1 # take (need b0 - 1) (takeWhile is_cont rest)
          else [])"

definition lead_bits :: "nat \<Rightarrow> nat" where
  "lead_bits b0 = (if b0 < 0xE0 then b0 - 0xC0 else if b0 < 0xF0 then b0 - 0xE0 else b0 - 0xF0)"

definition code_point :: "nat \<Rightarrow> nat list \<Rightarrow> nat" where
  "code_point b0 conts = foldl (\<lambda>acc b. acc * 64 + (b - 0x80)) (lead_bits b0) conts"

function utf8_replace :: "nat list \<Rightarrow> nat list" where
  "utf8_replace [] = []"
| "utf8_replace (b0 # bs) =
     (if b0 < 0x80 then b0 # utf8_replace bs
      else if 0 < need b0 \<and> length (accepted b0 bs) = need b0
        then code_point b0 (accepted b0 bs) # utf8_replace (drop (need b0) bs)
        else 0xFFFD # utf8_replace (drop (length (accepted b0 bs)) bs))"
  by pat_completeness auto
termination
  by (relation "measure length") auto

definition decode :: "string \<Rightarrow> pystr" where
  "decode payload = utf8_replace (map of_char payload)"

record mqtt_message =
  topic :: string
  payload :: string

text \<open>The paho client object is the list of calls made on it; \<open>loop_stop\<close> and
  \<open>disconnect\<close> report errors by return code, which the source ignores.\<close>

record subscriber =
  sub_client_id :: string
  sub_connected :: bool
  sub_connect_start :: "real option"
  messages_received :: int
  last_message_time :: "real option"
  sub_client :: "lib_call list"

definition MQTTSubscriberClient :: "string \<Rightarrow> subscriber" where
  "MQTTSubscriberClient client_id =
     \<lparr>sub_client_id = client_id, sub_connected = False, sub_connect_start = None,
      messages_received = 0, last_message_time = None, sub_client = []\<rparr>"

text \<open>The environment of a run: the events fired so far and the module's counters, which
  the module's \<open>on_request\<close> listener updates at every event.\<close>

record 'st environment =
  fired :: "request_event list"
  stats :: 'st

definition fire ::
  "('st \<Rightarrow> request_event \<Rightarrow> 'st) \<Rightarrow> 'st environment \<Rightarrow> request_event \<Rightarrow> 'st environment" where
  "fire listener env ev = env\<lparr>fired := fired env @ [ev], stats := listener (stats env) ev\<rparr>"

definition MQTTSubscriberClient_on_message ::
  "subscriber \<Rightarrow> alert_stats environment \<Rightarrow> real \<Rightarrow> mqtt_message
     \<Rightarrow> subscriber \<times> alert_stats environment" where
  "MQTTSubscriberClient_on_message s env now msg =
     (let s1 = s\<lparr>messages_received := messages_received s + 1, last_message_time := Some now\<rparr>;
          payload_str = decode (payload msg);
          is_valid = (payload_str = ustr ''ALERT'')
      in (s1,
          fire alert_on_request env
            \<lparr>request_type = ''MQTT'', name = ''alert_received'', response_time = 0,
             response_length = length (payload msg),
             exception =
               (if is_valid then None
                else Some (Exception (ustr ''Unexpected payload: '' @ take 50 payload_str))),
             ctx = [(''topic'', VStr (topic msg)), (''valid'', VBool is_valid)]\<rparr>))"

definition MQTTSubscriberClient_disconnect :: "subscriber \<Rightarrow> subscriber" where
  "MQTTSubscriberClient_disconnect s =
     (if sub_connected s
      then s\<lparr>sub_client := sub_client s @ [Loop_stop, Disconnect], sub_connected := False\<rparr>
      else s)"


section \<open>Connection statistics (locustfile\_distributed.py, locustfile\_connection\_test.py)\<close>

text \<open>\<open>connection_stats\<close> and its listener \<open>on_request\<close> are the same text in both
  modules. The dict has four literal keys and is only updated at them.\<close>

record connection_stats =
  total_attempts :: int
  successful :: int
  failed :: int
  auth_failures :: int

definition connection_stats_init :: connection_stats where
  "connection_stats_init = \<lparr>total_attempts = 0, successful = 0, failed = 0, auth_failures = 0\<rparr>"

definition on_request :: "connection_stats \<Rightarrow> request_event \<Rightarrow> connection_stats" where
  "on_request st ev =
     (if request_type ev = ''MQTT'' \<and> name ev = ''connect'' then
        (let st1 = st\<lparr>total_attempts := total_attempts st + 1\<rparr>
         in if exception ev \<noteq> None then
              (let st2 = st1\<lparr>failed := failed st1 + 1\<rparr>
               in if ctx ev \<noteq> [] \<and>
                     (map_of (ctx ev) ''rc'' = Some (VInt 4) \<or> map_of (ctx ev) ''rc'' = Some (VInt 5))
                  then st2\<lparr>auth_failures := auth_failures st2 + 1\<rparr>
                  else st2)
            else st1\<lparr>successful := successful st1 + 1\<rparr>)
      else st)"

definition rc_messages :: "(int \<times> string) list" where
  "rc_messages =
     [(1, ''Incorrect protocol version''),
      (2, ''Invalid client identifier''),
      (3, ''Server unavailable''),
      (4, ''Bad username or password''),
      (5, ''Not authorized'')]"

definition error_msg :: "int \<Rightarrow> string" where
  "error_msg rc =
     (case map_of rc_messages rc of
        Some m \<Rightarrow> m
      | None \<Rightarrow> ''Unknown error (rc='' @ str_int rc @ '')'')"

text \<open>\<open>(time.time() - self._connect_start) * 1000 if self._connect_start else 0\<close>: a start
  time of \<open>None\<close> or \<open>0.0\<close> is false.\<close>

definition elapsed_ms :: "real option \<Rightarrow> real \<Rightarrow> real" where
  "elapsed_ms start now =
     (case start of None \<Rightarrow> 0 | Some t0 \<Rightarrow> if t0 = 0 then 0 else (now - t0) * 1000)"

text \<open>The \<open>connect\<close> event both handlers and the callback fire.\<close>

definition connect_event ::
  "real \<Rightarrow> py_exception option \<Rightarrow> (string \<times> ctx_val) list \<Rightarrow> request_event" where
  "connect_event rt exc c =
     \<lparr>request_type = ''MQTT'', name = ''connect'', response_time = rt, response_length = 0,
      exception = exc, ctx = c\<rparr>"


section \<open>Asynchronous session (locustfile\_distributed.py, class GMQTTConnectionClient)\<close>

text \<open>
  \<open>g_connect_event\<close> is \<open>None\<close> or the flag of the \<open>asyncio.Event\<close>; \<open>g_client\<close> is
  \<open>None\<close> or the calls made on the gmqtt client. Clock readings (\<open>time.time()\<close>) are
  arguments. \<open>CONFIG.connect_timeout\<close> is the argument \<open>connect_timeout\<close>.
\<close>

record gmqtt_client =
  g_client_id :: string
  g_connected :: bool
  g_connect_start :: "real option"
  g_connect_error :: "string option"
  g_connect_event :: "bool option"
  g_client :: "lib_call list option"

definition GMQTTConnectionClient :: "string \<Rightarrow> gmqtt_client" where
  "GMQTTConnectionClient client_id =
     \<lparr>g_client_id = client_id, g_connected = False, g_connect_start = None,
      g_connect_error = None, g_connect_event = None, g_client = None\<rparr>"

definition GMQTTConnectionClient_on_connect ::
  "gmqtt_client \<Rightarrow> connection_stats environment \<Rightarrow> real \<Rightarrow> int
     \<Rightarrow> gmqtt_client \<times> connection_stats environment" where
  "GMQTTConnectionClient_on_connect s env now rc =
     (let rt = elapsed_ms (g_connect_start s) now;
          (s1, env1) =
            (if rc = 0 then
               (s\<lparr>g_connected := True\<rparr>,
                fire on_request env
                  (connect_event rt None [(''client_id'', VStr (g_client_id s))]))
             else
               (s\<lparr>g_connect_error := Some (error_msg rc)\<rparr>,
                fire on_request env
                  (connect_event rt (Some (Exception (ustr (error_msg rc))))
                     [(''client_id'', VStr (g_client_id s)), (''rc'', VInt rc)])))
      in (case g_connect_event s1 of
            None \<Rightarrow> s1
          | Some flag \<Rightarrow> s1\<lparr>g_connect_event := Some True\<rparr>,
          env1))"

definition GMQTTConnectionClient_on_disconnect :: "gmqtt_client \<Rightarrow> gmqtt_client" where
  "GMQTTConnectionClient_on_disconnect s = s\<lparr>g_connected := False\<rparr>"

fun g_deliver ::
  "callback list \<Rightarrow> gmqtt_client \<times> connection_stats environment
     \<Rightarrow> gmqtt_client \<times> connection_stats environment" where
  "g_deliver [] (s, env) = (s, env)"
| "g_deliver (On_connect rc now # cbs) (s, env) =
     g_deliver cbs (GMQTTConnectionClient_on_connect s env now rc)"
| "g_deliver (On_disconnect # cbs) (s, env) =
     g_deliver cbs (GMQTTConnectionClient_on_disconnect s, env)"

text \<open>The first three assignments of \<open>_connect_async\<close>, and the part of its \<open>try\<close> block
  before the first \<open>await\<close>: a new client with its credentials.\<close>

definition g_prologue :: "gmqtt_client \<Rightarrow> real \<Rightarrow> gmqtt_client" where
  "g_prologue s t_start =
     s\<lparr>g_connect_start := Some t_start, g_connect_error := None, g_connect_event := Some False\<rparr>"

definition g_setup :: "gmqtt_client \<Rightarrow> string \<Rightarrow> int \<Rightarrow> bool \<Rightarrow> gmqtt_client" where
  "g_setup s broker port use_tls =
     s\<lparr>g_client := Some [Set_auth_credentials (g_client_id s), Connect_ssl broker port use_tls]\<rparr>"

text \<open>The \<open>try\<close> block of \<open>_connect_async\<close>: \<open>Inl\<close> is the exception it raises.\<close>

definition g_try ::
  "gmqtt_client \<Rightarrow> connection_stats environment \<Rightarrow> string \<Rightarrow> int \<Rightarrow> bool \<Rightarrow> int
     \<Rightarrow> net_outcome \<Rightarrow> (py_exception + bool) \<times> gmqtt_client \<times> connection_stats environment" where
  "g_try s env broker port use_tls connect_timeout net =
     (let s2 = g_setup s broker port use_tls
      in case net of
           Connect_raises e \<Rightarrow> (Inl e, s2, env)
         | Callbacks cbs \<Rightarrow>
             (case g_deliver cbs (s2, env) of
                (s3, env3) \<Rightarrow>
                  if g_connect_event s3 \<noteq> Some True then
                    (Inl (Exception (ustr (''CONNACK timeout ('' @ str_int connect_timeout @ ''s)''))),
                     s3, env3)
                  else if g_connected s3 then (Inr True, s3, env3)
                  else
                    (case g_connect_error s3 of
                       Some m \<Rightarrow>
                         if m \<noteq> [] then (Inl (Exception (ustr m)), s3, env3)
                         else (Inl (Exception (ustr ''Connection failed'')), s3, env3)
                     | None \<Rightarrow> (Inl (Exception (ustr ''Connection failed'')), s3, env3))))"

text \<open>\<open>except Exception as e\<close>: an \<open>Exception\<close> becomes a failed \<open>connect\<close> event and the
  result \<open>False\<close>; anything else goes on to the caller.\<close>

definition GMQTTConnectionClient_connect_async ::
  "gmqtt_client \<Rightarrow> connection_stats environment \<Rightarrow> string \<Rightarrow> int \<Rightarrow> bool \<Rightarrow> int
     \<Rightarrow> real \<Rightarrow> net_outcome \<Rightarrow> real
     \<Rightarrow> (py_exception + bool) \<times> gmqtt_client \<times> connection_stats environment" where
  "GMQTTConnectionClient_connect_async s env broker port use_tls connect_timeout t_start net t_end =
     (case g_try (g_prologue s t_start) env broker port use_tls connect_timeout net of
        (Inr b, s', env') \<Rightarrow> (Inr b, s', env')
      | (Inl e, s', env') \<Rightarrow>
          if is_Exception e then
            (Inr False, s',
             fire on_request env'
               (connect_event ((t_end - t_start) * 1000) (Some e)
                  [(''client_id'', VStr (g_client_id s'))]))
          else (Inl e, s', env'))"

text \<open>
  \<open>run_async\<close>: the coroutine runs on the loop thread, and
  \<open>future.result(timeout=CONFIG.connect_timeout + 5)\<close> in the calling thread either hands
  over what the coroutine returned, or raises, or gives up with \<open>TimeoutError\<close> while the
  coroutine is still suspended in one of its waits. What it raises when the coroutine
  raised \<open>e\<close>: an \<open>Exception\<close> as it is; \<open>concurrent.futures.CancelledError\<close> for a
  cancelled coroutine; and after a \<open>KeyboardInterrupt\<close>, which ends the loop thread before
  the future is resolved, the \<open>TimeoutError\<close> of the wait.
\<close>

datatype bridge = Completes | Times_out

fun run_async_raises :: "py_exception \<Rightarrow> py_exception" where
  "run_async_raises CancelledError = Futures_CancelledError"
| "run_async_raises KeyboardInterrupt = TimeoutError"
| "run_async_raises e = e"

definition GMQTTConnectionClient_connect ::
  "gmqtt_client \<Rightarrow> connection_stats environment \<Rightarrow> string \<Rightarrow> int \<Rightarrow> bool \<Rightarrow> int
     \<Rightarrow> real \<Rightarrow> bridge \<Rightarrow> net_outcome \<Rightarrow> real
     \<Rightarrow> (py_exception + bool) \<times> gmqtt_client \<times> connection_stats environment" where
  "GMQTTConnectionClient_connect s env broker port use_tls connect_timeout t_start br net t_end =
     (case (case br of
              Completes \<Rightarrow>
                (case GMQTTConnectionClient_connect_async s env broker port use_tls
                        connect_timeout t_start net t_end of
                   (Inr b, s', env') \<Rightarrow> (Inr b, s', env')
                 | (Inl e, s', env') \<Rightarrow> (Inl (run_async_raises e), s', env'))
            | Times_out \<Rightarrow>
                (case (case net of
                         Connect_raises e \<Rightarrow> (g_setup (g_prologue s t_start) broker port use_tls, env)
                       | Callbacks cbs \<Rightarrow>
                           g_deliver cbs (g_setup (g_prologue s t_start) broker port use_tls, env)) of
                   (s', env') \<Rightarrow> (Inl TimeoutError, s', env'))) of
        (Inr b, s', env') \<Rightarrow> (Inr b, s', env')
      | (Inl e, s', env') \<Rightarrow>
          if is_Exception e then
            (Inr False, s',
             fire on_request env'
               (connect_event
                  ((t_end - (case g_connect_start s' of
                               None \<Rightarrow> t_end
                             | Some t0 \<Rightarrow> if t0 = 0 then t_end else t0)) * 1000)
                  (Some e) [(''client_id'', VStr (g_client_id s'))]))
          else (Inl e, s', env'))"

text \<open>\<open>_disconnect_async\<close> and \<open>disconnect\<close>: whatever the library's \<open>disconnect\<close> or the
  bridge raises is swallowed (\<open>except Exception: pass\<close>).\<close>

definition GMQTTConnectionClient_disconnect_async ::
  "gmqtt_client \<Rightarrow> py_exception option \<Rightarrow> gmqtt_client" where
  "GMQTTConnectionClient_disconnect_async s lib_raises =
     (case g_client s of
        Some cs \<Rightarrow>
          if g_connected s then
            (case lib_raises of
               None \<Rightarrow> s\<lparr>g_client := Some (cs @ [Disconnect])\<rparr>
             | Some e \<Rightarrow> s\<lparr>g_client := Some (cs @ [Disconnect])\<rparr>)\<lparr>g_connected := False\<rparr>
          else s
      | None \<Rightarrow> s)"

definition GMQTTConnectionClient_disconnect ::
  "gmqtt_client \<Rightarrow> bridge \<Rightarrow> py_exception option \<Rightarrow> gmqtt_client" where
  "GMQTTConnectionClient_disconnect s br lib_raises =
     (if g_connected s \<and> g_client s \<noteq> None then
        (case br of
           Completes \<Rightarrow> GMQTTConnectionClient_disconnect_async s lib_raises
         | Times_out \<Rightarrow> s)\<lparr>g_connected := False\<rparr>
      else s)"

definition GMQTTConnectionClient_is_connected :: "gmqtt_client \<Rightarrow> bool" where
  "GMQTTConnectionClient_is_connected s = g_connected s"


section \<open>Synchronous session (locustfile\_connection\_test.py, class MQTTConnectionClient)\<close>

text \<open>
  The paho client exists from \<open>__init__\<close> on: \<open>p_client\<close> is the calls made on it. The
  polling loop of \<open>connect\<close> ends when a callback has set \<open>_connected\<close> or
  \<open>_connect_error\<close>, or when the timeout has passed; it is represented by the callbacks the
  network thread delivers before it ends.
\<close>

record paho_client =
  p_client_id :: string
  p_connected :: bool
  p_connect_start :: "real option"
  p_connect_error :: "string option"
  p_client :: "lib_call list"

definition MQTTConnectionClient :: "string \<Rightarrow> paho_client" where
  "MQTTConnectionClient client_id =
     \<lparr>p_client_id = client_id, p_connected = False, p_connect_start = None,
      p_connect_error = None, p_client = []\<rparr>"

definition MQTTConnectionClient_on_connect ::
  "paho_client \<Rightarrow> connection_stats environment \<Rightarrow> real \<Rightarrow> int
     \<Rightarrow> paho_client \<times> connection_stats environment" where
  "MQTTConnectionClient_on_connect s env now rc =
     (let rt = elapsed_ms (p_connect_start s) now
      in if rc = 0 then
           (s\<lparr>p_connected := True\<rparr>,
            fire on_request env (connect_event rt None [(''client_id'', VStr (p_client_id s))]))
         else
           (s\<lparr>p_connect_error := Some (error_msg rc)\<rparr>,
            fire on_request env
              (connect_event rt (Some (Exception (ustr (error_msg rc))))
                 [(''client_id'', VStr (p_client_id s)), (''rc'', VInt rc)])))"

definition MQTTConnectionClient_on_disconnect :: "paho_client \<Rightarrow> paho_client" where
  "MQTTConnectionClient_on_disconnect s = s\<lparr>p_connected := False\<rparr>"

fun p_deliver ::
  "callback list \<Rightarrow> paho_client \<times> connection_stats environment
     \<Rightarrow> paho_client \<times> connection_stats environment" where
  "p_deliver [] (s, env) = (s, env)"
| "p_deliver (On_connect rc now # cbs) (s, env) =
     p_deliver cbs (MQTTConnectionClient_on_connect s env now rc)"
| "p_deliver (On_disconnect # cbs) (s, env) =
     p_deliver cbs (MQTTConnectionClient_on_disconnect s, env)"

text \<open>The \<open>try\<close> block of \<open>connect\<close>: \<open>Inl\<close> is the exception it raises.\<close>

definition p_try ::
  "paho_client \<Rightarrow> connection_stats environment \<Rightarrow> string \<Rightarrow> int \<Rightarrow> bool \<Rightarrow> int
     \<Rightarrow> net_outcome \<Rightarrow> (py_exception + bool) \<times> paho_client \<times> connection_stats environment" where
  "p_try s env broker port use_tls connect_timeout net =
     (let s2 = s\<lparr>p_client := p_client s
                   @ (if use_tls then [Tls_set, Tls_insecure_set] else [])
                   @ [Username_pw_set (p_client_id s), Connect broker port]\<rparr>
      in case net of
           Connect_raises e \<Rightarrow> (Inl e, s2, env)
         | Callbacks cbs \<Rightarrow>
             (case p_deliver cbs (s2\<lparr>p_client := p_client s2 @ [Loop_start]\<rparr>, env) of
                (s3, env3) \<Rightarrow>
                  if p_connected s3 then (Inr True, s3, env3)
                  else
                    (case p_connect_error s3 of
                       Some m \<Rightarrow>
                         if m \<noteq> [] then (Inl (Exception (ustr m)), s3, env3)
                         else
                           (Inl (Exception
                              (ustr (''Connection timeout ('' @ str_int connect_timeout @ ''s)''))),
                            s3, env3)
                     | None \<Rightarrow>
                         (Inl (Exception
                            (ustr (''Connection timeout ('' @ str_int connect_timeout @ ''s)''))),
                          s3, env3))))"

definition MQTTConnectionClient_connect ::
  "paho_client \<Rightarrow> connection_stats environment \<Rightarrow> string \<Rightarrow> int \<Rightarrow> bool \<Rightarrow> int
     \<Rightarrow> real \<Rightarrow> net_outcome \<Rightarrow> real
     \<Rightarrow> (py_exception + bool) \<times> paho_client \<times> connection_stats environment" where
  "MQTTConnectionClient_connect s env broker port use_tls connect_timeout t_start net t_end =
     (case p_try (s\<lparr>p_connect_start := Some t_start, p_connect_error := None\<rparr>) env
             broker port use_tls connect_timeout net of
        (Inr b, s', env') \<Rightarrow> (Inr b, s', env')
      | (Inl e, s', env') \<Rightarrow>
          if is_Exception e then
            (Inr False, s',
             fire on_request env'
               (connect_event ((t_end - t_start) * 1000) (Some e)
                  [(''client_id'', VStr (p_client_id s'))]))
          else (Inl e, s', env'))"

text \<open>An event that reports a failed connect attempt.\<close>

definition failed_connect :: "request_event \<Rightarrow> bool" where
  "failed_connect ev =
     (request_type ev = ''MQTT'' \<and> name ev = ''connect'' \<and> exception ev \<noteq> None)"


text \<open>A protocol-level outcome of a connect attempt: the library's \<open>connect\<close> raises an
  \<open>Exception\<close> (a transport error, a timeout), or it returns and callbacks arrive (an
  acknowledgment that accepts or denies, a disconnect, or nothing at all).\<close>

fun protocol_level :: "net_outcome \<Rightarrow> bool" where
  "protocol_level (Connect_raises e) = is_Exception e"
| "protocol_level (Callbacks cbs) = True"

text \<open>A session with its \<open>asyncio.Event\<close> in place, set if the session is connected.\<close>

definition event_ok :: "gmqtt_client \<Rightarrow> bool" where
  "event_ok s = (g_connect_event s \<noteq> None \<and> (g_connected s \<longrightarrow> g_connect_event s = Some True))"


section \<open>The allocator's identities\<close>

lemma get_next_no_wrap:
  "base_id a + counter a * worker_count a \<le> user_pool_size a \<Longrightarrow>
   get_next_user_id a =
     (base_id a + counter a * worker_count a, [], a\<lparr>counter := counter a + 1\<rparr>)"
  by (simp add: get_next_user_id_def Let_def)

text \<open>As long as the last of \<open>n\<close> calls stays inside the pool, the calls walk the
  arithmetic progression of the worker and log nothing.\<close>

lemma calls_no_wrap:
  "0 \<le> worker_count a \<Longrightarrow>
   (0 < n \<Longrightarrow> base_id a + (counter a + int n - 1) * worker_count a \<le> user_pool_size a) \<Longrightarrow>
   calls n a = (map (\<lambda>i. (base_id a + (counter a + int i) * worker_count a, [])) [0..<n],
                a\<lparr>counter := counter a + int n\<rparr>)"
proof (induction n arbitrary: a)
  case 0
  then show ?case by simp
next
  case (Suc n)
  have le: "counter a * worker_count a \<le> (counter a + int (Suc n) - 1) * worker_count a"
    using Suc.prems(1) by (intro mult_right_mono) auto
  with Suc.prems(2) have first: "base_id a + counter a * worker_count a \<le> user_pool_size a"
    by simp
  let ?a1 = "a\<lparr>counter := counter a + 1\<rparr>"
  have rest: "calls n ?a1 =
      (map (\<lambda>i. (base_id ?a1 + (counter ?a1 + int i) * worker_count ?a1, [])) [0..<n],
       ?a1\<lparr>counter := counter ?a1 + int n\<rparr>)"
  proof (rule Suc.IH)
    show "0 \<le> worker_count ?a1" using Suc.prems(1) by simp
    show "base_id ?a1 + (counter ?a1 + int n - 1) * worker_count ?a1 \<le> user_pool_size ?a1"
      using Suc.prems(2) by (simp add: algebra_simps)
  qed
  have shift: "[0..<Suc n] = 0 # map Suc [0..<n]"
    by (simp add: upt_conv_Cons map_Suc_upt del: upt_Suc)
  have step: "calls (Suc n) a =
      ((base_id a + counter a * worker_count a, []) # fst (calls n ?a1), snd (calls n ?a1))"
    by (simp add: get_next_no_wrap [OF first] split: prod.split)
  show ?case
    unfolding step rest shift
    by (simp add: comp_def algebra_simps del: upt_Suc)
qed

lemma nth_call_no_wrap:
  assumes "0 \<le> c" and "w + 1 + int k * c \<le> p"
  shows "nth_call w c p k = (w + 1 + int k * c, [])"
    and "map snd (fst (calls (Suc k) (UserIDAllocator w c p))) = replicate (Suc k) []"
proof -
  let ?a = "UserIDAllocator w c p"
  have "calls (Suc k) ?a =
      (map (\<lambda>i. (base_id ?a + (counter ?a + int i) * worker_count ?a, [])) [0..<Suc k],
       ?a\<lparr>counter := counter ?a + int (Suc k)\<rparr>)"
    by (rule calls_no_wrap) (use assms in \<open>simp_all add: UserIDAllocator_def\<close>)
  then have eq: "fst (calls (Suc k) ?a) = map (\<lambda>i. (w + 1 + int i * c, [])) [0..<Suc k]"
    by (simp add: UserIDAllocator_def)
  show "nth_call w c p k = (w + 1 + int k * c, [])"
    unfolding nth_call_def eq by (simp add: nth_append del: upt_Suc)
  show "map snd (fst (calls (Suc k) ?a)) = replicate (Suc k) []"
    unfolding eq by (simp add: comp_def map_replicate_const del: upt_Suc replicate_Suc)
qed

text \<open>Two workers' progressions never meet: their members differ modulo the worker count.\<close>

lemma progression_distinct:
  fixes w1 w2 c :: int
  assumes "0 \<le> w1" "w1 < c" "0 \<le> w2" "w2 < c" "w1 \<noteq> w2"
  shows "w1 + 1 + int k1 * c \<noteq> w2 + 1 + int k2 * c"
proof
  assume "w1 + 1 + int k1 * c = w2 + 1 + int k2 * c"
  then have "(w1 + int k1 * c) mod c = (w2 + int k2 * c) mod c" by simp
  then have "w1 mod c = w2 mod c" by simp
  with assms show False by simp
qed

text \<open>
  Claim C1. For a pool size of at least 1, a worker count of at least 1 and two different
  worker indices below the worker count: whenever call number \<open>k1\<close> of the first worker and
  call number \<open>k2\<close> of the second have their identities \<open>(w + 1) + k * count\<close> inside the
  pool, neither worker has wrapped around up to that call (no call has logged the warning),
  the allocator returns exactly these identities, and the two identities differ.
\<close>

theorem identities_distinct_across_workers:
  assumes "1 \<le> p" and "1 \<le> c"
    and "0 \<le> w1" and "w1 < c" and "0 \<le> w2" and "w2 < c" and "w1 \<noteq> w2"
    and "w1 + 1 + int k1 * c \<le> p" and "w2 + 1 + int k2 * c \<le> p"
  shows "map snd (fst (calls (Suc k1) (UserIDAllocator w1 c p))) = replicate (Suc k1) [] \<and>
         map snd (fst (calls (Suc k2) (UserIDAllocator w2 c p))) = replicate (Suc k2) [] \<and>
         nth_call w1 c p k1 = (w1 + 1 + int k1 * c, []) \<and>
         nth_call w2 c p k2 = (w2 + 1 + int k2 * c, []) \<and>
         fst (nth_call w1 c p k1) \<noteq> fst (nth_call w2 c p k2)"
proof -
  have c0: "0 \<le> c" using assms(2) by simp
  note n1 = nth_call_no_wrap [OF c0 assms(8)]
  note n2 = nth_call_no_wrap [OF c0 assms(9)]
  have "w1 + 1 + int k1 * c \<noteq> w2 + 1 + int k2 * c"
    using assms(3-7) by (rule progression_distinct)
  with n1 n2 show ?thesis by simp
qed

theorem identities_distinct_across_workers_witness:
  "fst (nth_call 0 2 100 49) = 99 \<and> fst (nth_call 1 2 100 49) = 100 \<and>
   fst (nth_call 0 2 100 49) \<noteq> fst (nth_call 1 2 100 49)"
  using identities_distinct_across_workers [of 100 2 0 1 49 49] by simp

text \<open>Wrapped around or not, every identity a worker returns is congruent to its base
  identity modulo the worker count, so two workers never return the same identity.\<close>

lemma get_next_residue:
  assumes "get_next_user_id a = (u, lg, a')"
  shows "u mod worker_count a = base_id a mod worker_count a \<and>
         worker_count a' = worker_count a \<and> base_id a' = base_id a"
  using assms by (auto simp: get_next_user_id_def Let_def split: if_splits)

lemma calls_residue:
  "list_all (\<lambda>r. fst r mod worker_count a = base_id a mod worker_count a) (fst (calls n a))"
proof (induction n arbitrary: a)
  case 0
  then show ?case by simp
next
  case (Suc n)
  obtain u lg a' where g: "get_next_user_id a = (u, lg, a')" by (metis prod_cases3)
  from get_next_residue [OF g] Suc.IH [of a'] g show ?case
    by (cases "calls n a'") auto
qed

lemma length_calls: "length (fst (calls n a)) = n"
proof (induction n arbitrary: a)
  case 0
  then show ?case by simp
next
  case (Suc n)
  obtain u lg a' where g: "get_next_user_id a = (u, lg, a')" by (metis prod_cases3)
  obtain rs a'' where c: "calls n a' = (rs, a'')" by (cases "calls n a'")
  from Suc.IH [of a'] c have "length rs = n" by simp
  with g c show ?case by simp
qed

lemma nth_call_residue: "fst (nth_call w c p k) mod c = (w + 1) mod c"
proof -
  have "list_all (\<lambda>r. fst r mod c = (w + 1) mod c) (fst (calls (Suc k) (UserIDAllocator w c p)))"
    using calls_residue [of "UserIDAllocator w c p" "Suc k"] by (simp add: UserIDAllocator_def)
  then show ?thesis
    unfolding nth_call_def list_all_length by (simp add: length_calls del: calls.simps)
qed

lemma identities_distinct_always:
  assumes "0 \<le> w1" and "w1 < c" and "0 \<le> w2" and "w2 < c" and "w1 \<noteq> w2"
  shows "fst (nth_call w1 c p k1) \<noteq> fst (nth_call w2 c p k2)"
proof
  assume "fst (nth_call w1 c p k1) = fst (nth_call w2 c p k2)"
  then have "(w1 + 1) mod c = (w2 + 1) mod c"
    using nth_call_residue [of w1 c p k1] nth_call_residue [of w2 c p k2] by simp
  then have "(w1 + 1 - 1) mod c = (w2 + 1 - 1) mod c" by (rule mod_diff_cong) simp
  then have "w1 mod c = w2 mod c" by simp
  with assms show False by simp
qed

text \<open>
  Claim C3. Pool size 100, two workers. The first 50 calls of worker 0 return 1, 3, ..., 99
  and log nothing; its 51st call returns 1 again, logs the wraparound warning and leaves
  the allocator as it started (the function has no error result). The first 50 calls of
  worker 1 return 2, 4, ..., 100 and log nothing.
\<close>

theorem pool_100_two_workers:
  "calls 51 (UserIDAllocator 0 2 100) =
     (map (\<lambda>k. (1 + 2 * int k, [])) [0..<50] @ [(1, [Warning_wrapped_around 0])],
      UserIDAllocator 0 2 100) \<and>
   calls 50 (UserIDAllocator 1 2 100) =
     (map (\<lambda>k. (2 + 2 * int k, [])) [0..<50], (UserIDAllocator 1 2 100)\<lparr>counter := 50\<rparr>) \<and>
   last (map (\<lambda>k. 1 + 2 * int k) [0..<50]) = 99 \<and>
   last (map (\<lambda>k. 2 + 2 * int k) [0..<50]) = 100"
  by code_simp

text \<open>
  Claim C10. When a call wraps around (the identity it computes exceeds the pool size), it
  returns the base identity, logs the warning and leaves the counter at 0; the next call
  computes \<open>base + 0 * count\<close> and returns the base identity a second time.
\<close>

theorem wraparound_repeats_base:
  assumes "user_pool_size a < base_id a + counter a * worker_count a"
  shows "case get_next_user_id a of
           (u1, lg1, a1) \<Rightarrow>
             u1 = base_id a \<and> lg1 = [Warning_wrapped_around (worker_index a)] \<and>
             counter a1 = 0 \<and>
             fst (get_next_user_id a1) = base_id a + 0 * worker_count a \<and>
             fst (get_next_user_id a1) = u1"
  using assms by (simp add: get_next_user_id_def Let_def)

theorem wraparound_repeats_base_witness:
  "fst (get_next_user_id ((UserIDAllocator 0 2 100)\<lparr>counter := 50\<rparr>)) = 1 \<and>
   fst (get_next_user_id
          (snd (snd (get_next_user_id ((UserIDAllocator 0 2 100)\<lparr>counter := 50\<rparr>))))) = 1"
  using wraparound_repeats_base [of "(UserIDAllocator 0 2 100)\<lparr>counter := 50\<rparr>"]
  by (simp add: UserIDAllocator_def split: prod.splits)

text \<open>Inside its working range the allocator stays there, and returns identities of the
  pool only.\<close>

lemma get_next_in_pool:
  assumes "inv_alloc a" and "get_next_user_id a = (u, lg, a')"
  shows "1 \<le> u \<and> u \<le> user_pool_size a \<and> inv_alloc a' \<and> user_pool_size a' = user_pool_size a"
proof -
  have m: "0 \<le> counter a * worker_count a" using assms(1) by (simp add: inv_alloc_def)
  have b: "1 \<le> base_id a" using assms(1) by (simp add: inv_alloc_def)
  from m b have "1 \<le> base_id a + counter a * worker_count a" by linarith
  with assms show ?thesis
    by (auto simp: get_next_user_id_def Let_def inv_alloc_def split: if_splits)
qed

lemma calls_in_pool:
  "inv_alloc a \<Longrightarrow> list_all (\<lambda>r. 1 \<le> fst r \<and> fst r \<le> user_pool_size a) (fst (calls n a))"
proof (induction n arbitrary: a)
  case 0
  then show ?case by simp
next
  case (Suc n)
  obtain u lg a' where g: "get_next_user_id a = (u, lg, a')" by (metis prod_cases3)
  from get_next_in_pool [OF Suc.prems g] Suc.IH [of a'] g show ?case
    by (cases "calls n a'") auto
qed

text \<open>
  Claim C9, as far as it holds. For a worker index in \<open>[0, count - 1]\<close> that is also below
  the pool size, a worker count of at least 1 and a pool size of at least 1, every identity
  that any number of successive calls returns lies in \<open>[1, poolSize]\<close>.
\<close>

theorem identities_in_pool:
  assumes "1 \<le> c" and "1 \<le> p" and "0 \<le> w" and "w < c" and "w < p"
  shows "list_all (\<lambda>r. 1 \<le> fst r \<and> fst r \<le> p) (fst (calls n (UserIDAllocator w c p)))"
proof -
  have "inv_alloc (UserIDAllocator w c p)"
    using assms by (simp add: inv_alloc_def UserIDAllocator_def)
  from calls_in_pool [OF this, of n] show ?thesis by (simp add: UserIDAllocator_def)
qed

theorem identities_in_pool_witness:
  "list_all (\<lambda>r. 1 \<le> fst r \<and> fst r \<le> 3) (fst (calls 5 (UserIDAllocator 1 2 3)))"
  using identities_in_pool [of 2 3 1 5] by simp

text \<open>
  Claim C9 as stated fails: with pool size 1 and two workers, worker 1 (an index in
  \<open>[0, count - 1]\<close>) gets identity 2 from its first call, outside \<open>[1, 1]\<close>.
\<close>

theorem identity_out_of_pool:
  "(1::int) \<le> 2 \<and> (1::int) \<le> 1 \<and> (0::int) \<le> 1 \<and> (1::int) < 2 \<and>
   fst (nth_call 1 2 1 0) = 2 \<and>
   \<not> fst (nth_call 1 2 1 0) \<le> user_pool_size (UserIDAllocator 1 2 1) \<and>
   get_next_user_id (UserIDAllocator 1 2 1) =
     (2, [Warning_wrapped_around 1], UserIDAllocator 1 2 1)"
  by (simp add: nth_call_def get_next_user_id_def UserIDAllocator_def Let_def)


section \<open>Merging worker statistics\<close>

lemma merge_fieldwise:
  "merge a b =
     \<lparr>total_received = total_received a + total_received b,
      valid_alerts = valid_alerts a + valid_alerts b,
      invalid_alerts = invalid_alerts a + invalid_alerts b\<rparr>"
  by (simp add: merge_def on_worker_report_def on_report_to_master_def copy_def get_default_def)

lemma on_worker_report_commute:
  "on_worker_report (on_worker_report t d1) d2 = on_worker_report (on_worker_report t d2) d1"
  by (simp add: on_worker_report_def split: option.splits)

lemma foldl_on_worker_report_perm:
  assumes "mset ds = mset es"
  shows "foldl on_worker_report t ds = foldl on_worker_report t es"
proof -
  have "fold (\<lambda>d st. on_worker_report st d) ds = fold (\<lambda>d st. on_worker_report st d) es"
    by (rule fold_multiset_equiv) (auto simp: fun_eq_iff on_worker_report_commute assms)
  then show ?thesis by (simp add: foldl_conv_fold)
qed

lemma foldl_merge_perm:
  assumes "mset xs = mset ys"
  shows "foldl merge t xs = foldl merge t ys"
proof -
  have "fold (\<lambda>x st. merge st x) xs = fold (\<lambda>x st. merge st x) ys"
    by (rule fold_multiset_equiv) (auto simp: fun_eq_iff merge_fieldwise assms)
  then show ?thesis by (simp add: foldl_conv_fold)
qed

text \<open>
  Claim C7. The merge of worker statistics is field-wise addition; it is commutative and
  associative, the master may receive two reports in either order, and merging a list of
  snapshots (or receiving a list of reports) gives the same totals in every order of the
  list. This holds for all integer counters, the non-negative ones among them.
\<close>

theorem merge_associative_commutative:
  "merge a b = merge b a \<and>
   merge (merge a b) c = merge a (merge b c) \<and>
   merge a b =
     \<lparr>total_received = total_received a + total_received b,
      valid_alerts = valid_alerts a + valid_alerts b,
      invalid_alerts = invalid_alerts a + invalid_alerts b\<rparr> \<and>
   on_worker_report (on_worker_report t d1) d2 = on_worker_report (on_worker_report t d2) d1 \<and>
   (mset xs = mset ys \<longrightarrow> foldl merge t xs = foldl merge t ys) \<and>
   (mset ds = mset es \<longrightarrow> foldl on_worker_report t ds = foldl on_worker_report t es)"
proof (intro conjI impI)
  show "merge a b = merge b a" by (simp add: merge_fieldwise)
  show "merge (merge a b) c = merge a (merge b c)" by (simp add: merge_fieldwise)
  show "merge a b =
     \<lparr>total_received = total_received a + total_received b,
      valid_alerts = valid_alerts a + valid_alerts b,
      invalid_alerts = invalid_alerts a + invalid_alerts b\<rparr>" by (rule merge_fieldwise)
  show "on_worker_report (on_worker_report t d1) d2 = on_worker_report (on_worker_report t d2) d1"
    by (rule on_worker_report_commute)
  show "foldl merge t xs = foldl merge t ys" if "mset xs = mset ys"
    using that by (rule foldl_merge_perm)
  show "foldl on_worker_report t ds = foldl on_worker_report t es" if "mset ds = mset es"
    using that by (rule foldl_on_worker_report_perm)
qed

theorem merge_associative_commutative_witness:
  "foldl merge alert_stats_init
     [\<lparr>total_received = 5, valid_alerts = 4, invalid_alerts = 1\<rparr>,
      \<lparr>total_received = 7, valid_alerts = 7, invalid_alerts = 0\<rparr>,
      \<lparr>total_received = 2, valid_alerts = 0, invalid_alerts = 2\<rparr>] =
   foldl merge alert_stats_init
     [\<lparr>total_received = 2, valid_alerts = 0, invalid_alerts = 2\<rparr>,
      \<lparr>total_received = 5, valid_alerts = 4, invalid_alerts = 1\<rparr>,
      \<lparr>total_received = 7, valid_alerts = 7, invalid_alerts = 0\<rparr>] \<and>
   foldl merge alert_stats_init
     [\<lparr>total_received = 5, valid_alerts = 4, invalid_alerts = 1\<rparr>,
      \<lparr>total_received = 7, valid_alerts = 7, invalid_alerts = 0\<rparr>,
      \<lparr>total_received = 2, valid_alerts = 0, invalid_alerts = 2\<rparr>] =
   \<lparr>total_received = 14, valid_alerts = 11, invalid_alerts = 3\<rparr>"
proof -
  let ?a = "\<lparr>total_received = 5, valid_alerts = 4, invalid_alerts = 1\<rparr>"
  let ?b = "\<lparr>total_received = 7, valid_alerts = 7, invalid_alerts = 0\<rparr>"
  let ?c = "\<lparr>total_received = 2, valid_alerts = 0, invalid_alerts = 2\<rparr>"
  have m: "mset [?a, ?b, ?c] = mset [?c, ?a, ?b]" by (simp add: add.commute add.left_commute)
  from merge_associative_commutative
    [where xs = "[?a, ?b, ?c]" and ys = "[?c, ?a, ?b]" and t = alert_stats_init] m
  have "foldl merge alert_stats_init [?a, ?b, ?c] = foldl merge alert_stats_init [?c, ?a, ?b]"
    by blast
  moreover have "foldl merge alert_stats_init [?a, ?b, ?c] =
      \<lparr>total_received = 14, valid_alerts = 11, invalid_alerts = 3\<rparr>"
    by (simp add: merge_def on_worker_report_def on_report_to_master_def copy_def
        get_default_def alert_stats_init_def)
  ultimately show ?thesis by simp
qed


section \<open>Received messages\<close>

text \<open>Decoding yields ASCII code points only from the same ASCII bytes: every multi-byte
  sequence and every replacement is a code point of at least 128.\<close>

lemma foldl_cont_ge: "(acc::nat) \<le> foldl (\<lambda>acc b. acc * 64 + (b - 0x80)) acc xs"
proof (induction xs arbitrary: acc)
  case Nil
  then show ?case by simp
next
  case (Cons x xs)
  have "acc \<le> acc * 64 + (x - 0x80)" by simp
  also have "\<dots> \<le> foldl (\<lambda>acc b. acc * 64 + (b - 0x80)) (acc * 64 + (x - 0x80)) xs"
    by (rule Cons.IH)
  finally show ?case by simp
qed

lemma code_point_ge:
  assumes n: "0 < need b0" and len: "length (accepted b0 bs) = need b0"
  shows "0x80 \<le> code_point b0 (accepted b0 bs)"
proof -
  from n len obtain b1 rest where bs: "bs = b1 # rest"
    by (cases bs) (auto simp: accepted_def)
  define tl where "tl = take (need b0 - 1) (takeWhile is_cont rest)"
  from n len bs have ok: "second_ok b0 b1" and acc: "accepted b0 bs = b1 # tl"
    by (auto simp: accepted_def tl_def split: if_splits)
  define A where "A = lead_bits b0 * 64 + (b1 - 0x80)"
  have cp: "code_point b0 (accepted b0 bs) = foldl (\<lambda>acc b. acc * 64 + (b - 0x80)) A tl"
    by (simp add: code_point_def acc A_def)
  show ?thesis
  proof (cases "need b0 = 1")
    case True
    then have "0xC2 \<le> b0 \<and> b0 \<le> 0xDF" by (auto simp: need_def split: if_splits)
    then have "lead_bits b0 = b0 - 0xC0" and "0xC2 \<le> b0" by (simp_all add: lead_bits_def)
    then have "2 \<le> lead_bits b0" by arith
    then have "128 \<le> A" by (simp add: A_def)
    also have "A \<le> foldl (\<lambda>acc b. acc * 64 + (b - 0x80)) A tl" by (rule foldl_cont_ge)
    finally show ?thesis by (simp add: cp)
  next
    case False
    with n have rng: "0xE0 \<le> b0 \<and> b0 \<le> 0xF4" and n2: "2 \<le> need b0"
      by (auto simp: need_def split: if_splits)
    from len acc n2 obtain c tl' where tl: "tl = c # tl'" by (cases tl) auto
    have "1 \<le> lead_bits b0 \<or> 0x82 \<le> b1"
      using rng ok by (auto simp: lead_bits_def second_ok_def is_cont_def split: if_splits)
    then have A2: "2 \<le> A"
      by (auto simp: A_def)
    then have "128 \<le> A * 64 + (c - 0x80)" by simp
    also have "\<dots> \<le> foldl (\<lambda>acc b. acc * 64 + (b - 0x80)) (A * 64 + (c - 0x80)) tl'"
      by (rule foldl_cont_ge)
    finally show ?thesis by (simp add: cp tl)
  qed
qed

lemma utf8_replace_ascii:
  "utf8_replace bs = cs \<Longrightarrow> list_all (\<lambda>c. c < 0x80) cs \<Longrightarrow> bs = cs"
proof (induction bs arbitrary: cs rule: utf8_replace.induct)
  case 1
  then show ?case by simp
next
  case (2 b0 bs)
  show ?case
  proof (cases "b0 < 0x80")
    case True
    with 2 show ?thesis by (cases cs) auto
  next
    case False
    show ?thesis
    proof (cases "0 < need b0 \<and> length (accepted b0 bs) = need b0")
      case True
      with code_point_ge [of b0 bs] have "0x80 \<le> code_point b0 (accepted b0 bs)" by simp
      with 2 False True show ?thesis by (cases cs) auto
    next
      case f: False
      with 2 False show ?thesis by (cases cs) auto
    qed
  qed
qed

lemma utf8_replace_ascii_id: "list_all (\<lambda>c. c < 0x80) bs \<Longrightarrow> utf8_replace bs = bs"
  by (induction bs) auto

lemma decode_eq_ascii:
  assumes "list_all (\<lambda>c. of_char c < (0x80::nat)) s"
  shows "decode p = ustr s \<longleftrightarrow> p = s"
proof
  assume "decode p = ustr s"
  then have "utf8_replace (map of_char p) = map of_char s" by (simp add: decode_def ustr_def)
  moreover have "list_all (\<lambda>c. c < 0x80) (map of_char s :: nat list)"
    using assms by (simp add: list_all_iff)
  ultimately have "map of_char p = (map of_char s :: nat list)" by (rule utf8_replace_ascii)
  then show "p = s" by (simp add: inj_map_eq_map inj_on_def)
next
  assume "p = s"
  then show "decode p = ustr s"
    using assms by (simp add: decode_def ustr_def utf8_replace_ascii_id list_all_iff)
qed

lemma decode_ALERT: "decode p = ustr ''ALERT'' \<longleftrightarrow> p = ''ALERT''"
  by (rule decode_eq_ascii) simp


text \<open>
  Claim C6. For every received message the handler adds one to the session's
  received-message counter and records the receipt time; it fires one \<open>alert_received\<close>
  event whose \<open>valid\<close> flag is true exactly when the payload is the five bytes \<open>ALERT\<close>
  (a valid message carries no exception, any other one does); the listener counts every
  message in \<open>total_received\<close>, a valid one in \<open>valid_alerts\<close>, any other one in
  \<open>invalid_alerts\<close>.
\<close>

theorem message_counted_and_classified:
  "case MQTTSubscriberClient_on_message s env now msg of
     (s', env') \<Rightarrow>
       messages_received s' = messages_received s + 1 \<and>
       last_message_time s' = Some now \<and>
       (\<exists>ev. fired env' = fired env @ [ev] \<and>
             request_type ev = ''MQTT'' \<and> name ev = ''alert_received'' \<and>
             map_of (ctx ev) ''valid'' = Some (VBool (payload msg = ''ALERT'')) \<and>
             (exception ev = None) = (payload msg = ''ALERT'')) \<and>
       total_received (stats env') = total_received (stats env) + 1 \<and>
       valid_alerts (stats env') =
         valid_alerts (stats env) + (if payload msg = ''ALERT'' then 1 else 0) \<and>
       invalid_alerts (stats env') =
         invalid_alerts (stats env) + (if payload msg = ''ALERT'' then 0 else 1)"
  by (simp add: MQTTSubscriberClient_on_message_def Let_def fire_def alert_on_request_def
      get_default_def decode_ALERT)

text \<open>An empty payload, a truncated one, one with an extra byte and one in lower case are
  invalid; \<open>ALERT\<close> is valid.\<close>

lemma message_examples:
  "map (\<lambda>p. map_of (ctx (last (fired (snd (MQTTSubscriberClient_on_message
            (MQTTSubscriberClient ''user1'') \<lparr>fired = [], stats = alert_stats_init\<rparr> 10
            \<lparr>topic = ''clients/user1/alerts'', payload = p\<rparr>))))) ''valid'')
     ['''', ''ALER'', ''ALERT!'', ''alert'', ''ALERT''] =
   [Some (VBool False), Some (VBool False), Some (VBool False), Some (VBool False),
    Some (VBool True)]"
  by (simp add: MQTTSubscriberClient_on_message_def Let_def fire_def decode_ALERT)

section \<open>Disconnecting\<close>

text \<open>
  Claim C8. \<open>disconnect\<close> on a session that is not connected (already disconnected, or
  fresh from its constructor) returns the session unchanged, with no call on the library
  and no error result; a second call after a first changes nothing, whatever the bridge
  and the library do, and so does any number of further calls. This holds for the
  asynchronous session and for the subscriber session.
\<close>

theorem disconnect_idempotent:
  "(\<not> g_connected s \<longrightarrow> GMQTTConnectionClient_disconnect s br r = s) \<and>
   GMQTTConnectionClient_disconnect (GMQTTConnectionClient cid) br r = GMQTTConnectionClient cid \<and>
   GMQTTConnectionClient_disconnect (GMQTTConnectionClient_disconnect s br r) br' r' =
     GMQTTConnectionClient_disconnect s br r \<and>
   foldl (\<lambda>s' (br', r'). GMQTTConnectionClient_disconnect s' br' r')
     (GMQTTConnectionClient_disconnect s br r) outs = GMQTTConnectionClient_disconnect s br r \<and>
   (\<not> sub_connected t \<longrightarrow> MQTTSubscriberClient_disconnect t = t) \<and>
   MQTTSubscriberClient_disconnect (MQTTSubscriberClient cid) = MQTTSubscriberClient cid \<and>
   \<not> sub_connected (MQTTSubscriberClient_disconnect t) \<and>
   MQTTSubscriberClient_disconnect (MQTTSubscriberClient_disconnect t) =
     MQTTSubscriberClient_disconnect t \<and>
   (MQTTSubscriberClient_disconnect ^^ Suc n) t = MQTTSubscriberClient_disconnect t"
proof (intro conjI impI)
  show "GMQTTConnectionClient_disconnect s br r = s" if "\<not> g_connected s"
    using that by (simp add: GMQTTConnectionClient_disconnect_def)
  show "GMQTTConnectionClient_disconnect (GMQTTConnectionClient cid) br r = GMQTTConnectionClient cid"
    by (simp add: GMQTTConnectionClient_disconnect_def GMQTTConnectionClient_def)
  show twice: "GMQTTConnectionClient_disconnect (GMQTTConnectionClient_disconnect s br r) br' r' =
     GMQTTConnectionClient_disconnect s br r" for s br r br' r'
    by (auto simp: GMQTTConnectionClient_disconnect_def
        GMQTTConnectionClient_disconnect_async_def split: bridge.splits option.splits)
  show "foldl (\<lambda>s' (br', r'). GMQTTConnectionClient_disconnect s' br' r')
     (GMQTTConnectionClient_disconnect s br r) outs = GMQTTConnectionClient_disconnect s br r"
    by (induction outs) (auto simp: twice)
  show "MQTTSubscriberClient_disconnect t = t" if "\<not> sub_connected t"
    using that by (simp add: MQTTSubscriberClient_disconnect_def)
  show "MQTTSubscriberClient_disconnect (MQTTSubscriberClient cid) = MQTTSubscriberClient cid"
    by (simp add: MQTTSubscriberClient_disconnect_def MQTTSubscriberClient_def)
  show "\<not> sub_connected (MQTTSubscriberClient_disconnect t)"
    by (simp add: MQTTSubscriberClient_disconnect_def)
  show sub_twice: "MQTTSubscriberClient_disconnect (MQTTSubscriberClient_disconnect t) =
     MQTTSubscriberClient_disconnect t" for t
    by (simp add: MQTTSubscriberClient_disconnect_def)
  show "(MQTTSubscriberClient_disconnect ^^ Suc n) t = MQTTSubscriberClient_disconnect t"
    by (induction n) (simp_all add: sub_twice)
qed

theorem disconnect_idempotent_witness:
  "\<not> g_connected (GMQTTConnectionClient ''user1'') \<and>
   GMQTTConnectionClient_disconnect (GMQTTConnectionClient ''user1'') Completes None =
     GMQTTConnectionClient ''user1'' \<and>
   \<not> sub_connected (MQTTSubscriberClient ''user1'') \<and>
   MQTTSubscriberClient_disconnect (MQTTSubscriberClient ''user1'') =
     MQTTSubscriberClient ''user1''"
  using disconnect_idempotent [of "GMQTTConnectionClient ''user1''" Completes None
      "''user1''" Completes None "[]" "MQTTSubscriberClient ''user1''" 0]
  by (simp add: GMQTTConnectionClient_def MQTTSubscriberClient_def)


section \<open>Connect attempts\<close>

text \<open>Callbacks only add events, they leave the session connected exactly when they end
  in an acceptance, and once the session has its event, a connected session has it set.\<close>

lemma g_on_connect_fired:
  "\<exists>ev. fired (snd (GMQTTConnectionClient_on_connect s env now rc)) = fired env @ [ev]"
  by (simp add: GMQTTConnectionClient_on_connect_def Let_def fire_def)

lemma g_deliver_fired: "\<exists>evs. fired (snd (g_deliver cbs (s, env))) = fired env @ evs"
proof (induction cbs "(s, env)" arbitrary: s env rule: g_deliver.induct)
  case (1 s env)
  then show ?case by simp
next
  case (2 rc now cbs s env)
  obtain s1 env1 where oc: "GMQTTConnectionClient_on_connect s env now rc = (s1, env1)"
    by (cases "GMQTTConnectionClient_on_connect s env now rc")
  from g_on_connect_fired [of s env now rc] oc obtain ev where "fired env1 = fired env @ [ev]"
    by auto
  moreover from 2 [OF oc] obtain evs where
    "fired (snd (g_deliver cbs (s1, env1))) = fired env1 @ evs" by auto
  ultimately show ?case by (simp add: oc)
next
  case (3 cbs s env)
  then show ?case by simp
qed

lemma g_deliver_connected:
  "g_connected (fst (g_deliver cbs (s, env))) = ends_connected (g_connected s) cbs"
proof (induction cbs "(s, env)" arbitrary: s env rule: g_deliver.induct)
  case (1 s env)
  then show ?case by simp
next
  case (2 rc now cbs s env)
  obtain s1 env1 where oc: "GMQTTConnectionClient_on_connect s env now rc = (s1, env1)"
    by (cases "GMQTTConnectionClient_on_connect s env now rc")
  then have "g_connected s1 = (g_connected s \<or> rc = 0)"
    by (auto simp: GMQTTConnectionClient_on_connect_def Let_def split: if_splits option.splits)
  with 2 [OF oc] show ?case by (simp add: oc)
next
  case (3 cbs s env)
  then show ?case by (simp add: GMQTTConnectionClient_on_disconnect_def)
qed

lemma g_deliver_event: "event_ok s \<Longrightarrow> event_ok (fst (g_deliver cbs (s, env)))"
proof (induction cbs "(s, env)" arbitrary: s env rule: g_deliver.induct)
  case (1 s env)
  then show ?case by simp
next
  case (2 rc now cbs s env)
  obtain s1 env1 where oc: "GMQTTConnectionClient_on_connect s env now rc = (s1, env1)"
    by (cases "GMQTTConnectionClient_on_connect s env now rc")
  with 2(2) have "event_ok s1"
    by (auto simp: GMQTTConnectionClient_on_connect_def Let_def event_ok_def
        split: if_splits option.splits)
  with 2(1) [OF oc] show ?case by (simp add: oc)
next
  case (3 cbs s env)
  then show ?case by (simp add: GMQTTConnectionClient_on_disconnect_def event_ok_def)
qed


lemma p_on_connect_fired:
  "\<exists>ev. fired (snd (MQTTConnectionClient_on_connect s env now rc)) = fired env @ [ev]"
  by (simp add: MQTTConnectionClient_on_connect_def Let_def fire_def)

lemma p_deliver_fired: "\<exists>evs. fired (snd (p_deliver cbs (s, env))) = fired env @ evs"
proof (induction cbs "(s, env)" arbitrary: s env rule: p_deliver.induct)
  case (1 s env)
  then show ?case by simp
next
  case (2 rc now cbs s env)
  obtain s1 env1 where oc: "MQTTConnectionClient_on_connect s env now rc = (s1, env1)"
    by (cases "MQTTConnectionClient_on_connect s env now rc")
  from p_on_connect_fired [of s env now rc] oc obtain ev where "fired env1 = fired env @ [ev]"
    by auto
  moreover from 2 [OF oc] obtain evs where
    "fired (snd (p_deliver cbs (s1, env1))) = fired env1 @ evs" by auto
  ultimately show ?case by (simp add: oc)
next
  case (3 cbs s env)
  then show ?case by simp
qed

lemma p_deliver_connected:
  "p_connected (fst (p_deliver cbs (s, env))) = ends_connected (p_connected s) cbs"
proof (induction cbs "(s, env)" arbitrary: s env rule: p_deliver.induct)
  case (1 s env)
  then show ?case by simp
next
  case (2 rc now cbs s env)
  obtain s1 env1 where oc: "MQTTConnectionClient_on_connect s env now rc = (s1, env1)"
    by (cases "MQTTConnectionClient_on_connect s env now rc")
  then have "p_connected s1 = (p_connected s \<or> rc = 0)"
    by (auto simp: MQTTConnectionClient_on_connect_def Let_def split: if_splits)
  with 2 [OF oc] show ?case by (simp add: oc)
next
  case (3 cbs s env)
  then show ?case by (simp add: MQTTConnectionClient_on_disconnect_def)
qed

text \<open>What \<open>connect\<close> returns, and what it fires when the attempt fails.\<close>

lemma is_Exception_run_async_raises: "is_Exception (run_async_raises e)"
  by (cases e) simp_all

lemma failed_connect_event: "failed_connect (connect_event rt (Some e) c)"
  by (simp add: failed_connect_def connect_event_def)

lemma g_connect_result:
  assumes nc: "\<not> g_connected s"
  shows "case GMQTTConnectionClient_connect s env broker port use_tls tmo t0 br net t1 of
           (r, s', env') \<Rightarrow>
             r = Inr (br = Completes \<and> acknowledged net) \<and>
             (r = Inr True \<longrightarrow> g_connected s') \<and>
             (\<not> (br = Completes \<and> acknowledged net) \<longrightarrow>
                (\<exists>evs ev. fired env' = fired env @ evs @ [ev] \<and> failed_connect ev))"
proof (cases net)
  case (Connect_raises e)
  show ?thesis
  proof (cases br)
    case Completes
    show ?thesis
    proof (cases "is_Exception e")
      case True
      with Connect_raises Completes show ?thesis
        by (auto simp: GMQTTConnectionClient_connect_def GMQTTConnectionClient_connect_async_def
            g_try_def Let_def fire_def failed_connect_event)
    next
      case False
      with Connect_raises Completes is_Exception_run_async_raises [of e] show ?thesis
        by (auto simp: GMQTTConnectionClient_connect_def GMQTTConnectionClient_connect_async_def
            g_try_def Let_def fire_def failed_connect_event)
    qed
  next
    case Times_out
    with Connect_raises show ?thesis
      by (auto simp: GMQTTConnectionClient_connect_def Let_def fire_def failed_connect_event)
  qed
next
  case (Callbacks cbs)
  let ?s2 = "g_setup (g_prologue s t0) broker port use_tls"
  obtain s3 env3 where d: "g_deliver cbs (?s2, env) = (s3, env3)"
    by (cases "g_deliver cbs (?s2, env)")
  have c3: "g_connected s3 = ends_connected False cbs"
    using g_deliver_connected [of cbs ?s2 env] nc d by (simp add: g_setup_def g_prologue_def)
  have "event_ok ?s2" using nc by (simp add: event_ok_def g_setup_def g_prologue_def)
  from g_deliver_event [OF this, of cbs env] d have e3: "event_ok s3" by simp
  from g_deliver_fired [of cbs ?s2 env] d obtain evs where f3: "fired env3 = fired env @ evs"
    by auto
  show ?thesis
  proof (cases br)
    case Times_out
    with Callbacks d f3 show ?thesis
      by (auto simp: GMQTTConnectionClient_connect_def Let_def fire_def failed_connect_event)
  next
    case Completes
    show ?thesis
    proof (cases "ends_connected False cbs")
      case True
      with c3 e3 have "g_connected s3" and "g_connect_event s3 = Some True"
        by (simp_all add: event_ok_def)
      with Callbacks Completes d True show ?thesis
        by (simp add: GMQTTConnectionClient_connect_def GMQTTConnectionClient_connect_async_def
            g_try_def Let_def)
    next
      case False
      with c3 have "\<not> g_connected s3" by simp
      with Callbacks Completes d False f3 show ?thesis
        by (auto simp: GMQTTConnectionClient_connect_def GMQTTConnectionClient_connect_async_def
            g_try_def Let_def fire_def failed_connect_event split: option.splits)
    qed
  qed
qed

lemma p_connect_result:
  assumes pl: "protocol_level net" and nc: "\<not> p_connected p"
  shows "case MQTTConnectionClient_connect p env broker port use_tls tmo t0 net t1 of
           (r, p', env') \<Rightarrow>
             r = Inr (acknowledged net) \<and>
             (r = Inr True \<longrightarrow> p_connected p') \<and>
             (\<not> acknowledged net \<longrightarrow>
                (\<exists>evs ev. fired env' = fired env @ evs @ [ev] \<and> failed_connect ev))"
proof (cases net)
  case (Connect_raises e)
  with pl show ?thesis
    by (auto simp: MQTTConnectionClient_connect_def p_try_def Let_def fire_def
        failed_connect_event)
next
  case (Callbacks cbs)
  let ?p2 = "p\<lparr>p_connect_start := Some t0, p_connect_error := None,
      p_client := p_client p @ (if use_tls then [Tls_set, Tls_insecure_set] else [])
        @ [Username_pw_set (p_client_id p), Connect broker port] @ [Loop_start]\<rparr>"
  obtain p3 env3 where d: "p_deliver cbs (?p2, env) = (p3, env3)"
    by (cases "p_deliver cbs (?p2, env)")
  have c3: "p_connected p3 = ends_connected False cbs"
    using p_deliver_connected [of cbs ?p2 env] nc d by simp
  from p_deliver_fired [of cbs ?p2 env] d obtain evs where f3: "fired env3 = fired env @ evs"
    by auto
  from Callbacks d c3 f3 show ?thesis
    by (auto simp: MQTTConnectionClient_connect_def p_try_def Let_def fire_def
        failed_connect_event split: option.splits)
qed




text \<open>A denying callback is such a failure, for both sessions.\<close>

lemma denying_callback_gives_False:
  "fst (GMQTTConnectionClient_connect (GMQTTConnectionClient cid) env broker port use_tls tmo t0
          Completes (Callbacks [On_connect 5 t1]) t2) = Inr False \<and>
   fst (MQTTConnectionClient_connect (MQTTConnectionClient cid) env broker port use_tls tmo t0
          (Callbacks [On_connect 5 t1]) t2) = Inr False"
  using g_connect_result [where s = "GMQTTConnectionClient cid" and env = env
      and broker = broker and port = port and use_tls = use_tls and tmo = tmo and ?t0.0 = t0
      and br = Completes and net = "Callbacks [On_connect 5 t1]" and ?t1.0 = t2]
    p_connect_result [where net = "Callbacks [On_connect 5 t1]"
      and p = "MQTTConnectionClient cid" and env = env and broker = broker and port = port
      and use_tls = use_tls and tmo = tmo and ?t0.0 = t0 and ?t1.0 = t2]
  by (simp add: GMQTTConnectionClient_def MQTTConnectionClient_def split: prod.splits)

text \<open>In the synchronous session, which runs in the caller's thread, what \<open>except
  Exception\<close> does not catch does reach the caller. Behind the bridge nothing does: a
  \<open>KeyboardInterrupt\<close> on the loop thread reaches the caller as the bridge's timeout.\<close>

lemma base_exception_escapes:
  "fst (MQTTConnectionClient_connect p env broker port use_tls tmo t0
          (Connect_raises KeyboardInterrupt) t1) = Inl KeyboardInterrupt"
  by (simp add: MQTTConnectionClient_connect_def p_try_def Let_def)

lemma base_exception_behind_bridge:
  "GMQTTConnectionClient_connect s env broker port use_tls tmo t0 Completes
       (Connect_raises KeyboardInterrupt) t1 =
   (Inr False, g_setup (g_prologue s t0) broker port use_tls,
    fire on_request env
      (connect_event ((t1 - (if t0 = 0 then t1 else t0)) * 1000) (Some TimeoutError)
         [(''client_id'', VStr (g_client_id s))]))"
  by (simp add: GMQTTConnectionClient_connect_def GMQTTConnectionClient_connect_async_def
      g_try_def g_setup_def g_prologue_def Let_def)

text \<open>A refused CONNACK as gmqtt reports it, raised from the library's \<open>connect\<close> with the
  return code: the handler of \<open>_connect_async\<close> fires one failed \<open>connect\<close> event whose
  context has no \<open>rc\<close>, so the listener counts a failure and no authentication failure,
  whatever the return code.\<close>

lemma g_denial_raised:
  "GMQTTConnectionClient_connect s env broker port use_tls tmo t0 Completes
      (Connect_raises (MQTTConnectError rc)) t2 =
   (Inr False,
    s\<lparr>g_connect_start := Some t0, g_connect_error := None, g_connect_event := Some False,
      g_client := Some [Set_auth_credentials (g_client_id s), Connect_ssl broker port use_tls]\<rparr>,
    env\<lparr>fired := fired env @
           [connect_event ((t2 - t0) * 1000) (Some (MQTTConnectError rc))
              [(''client_id'', VStr (g_client_id s))]],
        stats := (stats env)
          \<lparr>total_attempts := total_attempts (stats env) + 1,
           failed := failed (stats env) + 1\<rparr>\<rparr>)"
  by (simp add: GMQTTConnectionClient_connect_def GMQTTConnectionClient_connect_async_def
      g_try_def g_prologue_def g_setup_def Let_def fire_def on_request_def connect_event_def)

text \<open>
  Claim C2. A connect attempt of a fresh asynchronous session whose CONNACK is refused
  with return code 5 (``not authorized''): \<open>connect\<close> returns \<open>False\<close> and exactly one
  failed \<open>connect\<close> event is fired, but \<open>auth_failures\<close> is not incremented: it is still
  0 after the attempt.
\<close>

theorem refused_connack_counts_no_auth_failure:
  "GMQTTConnectionClient_connect (GMQTTConnectionClient ''user1'')
      \<lparr>fired = [], stats = connection_stats_init\<rparr> ''broker'' 443 True 30 100 Completes
      (Connect_raises (MQTTConnectError 5)) 102 =
   (Inr False,
    \<lparr>g_client_id = ''user1'', g_connected = False, g_connect_start = Some 100,
     g_connect_error = None, g_connect_event = Some False,
     g_client = Some [Set_auth_credentials ''user1'', Connect_ssl ''broker'' 443 True]\<rparr>,
    \<lparr>fired =
       [connect_event 2000 (Some (MQTTConnectError 5)) [(''client_id'', VStr ''user1'')]],
     stats = \<lparr>total_attempts = 1, successful = 0, failed = 1, auth_failures = 0\<rparr>\<rparr>) \<and>
   length (filter failed_connect
     (fired (snd (snd (GMQTTConnectionClient_connect (GMQTTConnectionClient ''user1'')
        \<lparr>fired = [], stats = connection_stats_init\<rparr> ''broker'' 443 True 30 100 Completes
        (Connect_raises (MQTTConnectError 5)) 102))))) = 1 \<and>
   auth_failures
     (stats (snd (snd (GMQTTConnectionClient_connect (GMQTTConnectionClient ''user1'')
        \<lparr>fired = [], stats = connection_stats_init\<rparr> ''broker'' 443 True 30 100 Completes
        (Connect_raises (MQTTConnectError 5)) 102)))) = 0"
  by (simp add: g_denial_raised GMQTTConnectionClient_def connection_stats_init_def
      failed_connect_event)

lemma error_msg_5: "error_msg 5 = ''Not authorized''"
  by (simp add: error_msg_def rc_messages_def)

text \<open>The only place that puts \<open>rc\<close> into the context of an event is the branch of
  \<open>_on_connect\<close> for a return code other than 0. Were the library to call it with return
  code 5 (and let its \<open>connect\<close> return), \<open>auth_failures\<close> would go up by one, and the
  attempt would be counted twice: the callback fires a failed event, and the exception
  that \<open>_connect_async\<close> raises for the same denial makes its handler fire a second one.\<close>

lemma g_denial_by_callback:
  "\<not> g_connected s \<Longrightarrow>
   GMQTTConnectionClient_connect s env broker port use_tls tmo t0 Completes
      (Callbacks [On_connect 5 t1]) t2 =
   (Inr False,
    s\<lparr>g_connect_start := Some t0, g_connect_error := Some ''Not authorized'',
      g_connect_event := Some True,
      g_client := Some [Set_auth_credentials (g_client_id s), Connect_ssl broker port use_tls]\<rparr>,
    env\<lparr>fired := fired env @
           [connect_event (elapsed_ms (Some t0) t1) (Some (Exception (ustr ''Not authorized'')))
              [(''client_id'', VStr (g_client_id s)), (''rc'', VInt 5)],
            connect_event ((t2 - t0) * 1000) (Some (Exception (ustr ''Not authorized'')))
              [(''client_id'', VStr (g_client_id s))]],
        stats := (stats env)
          \<lparr>total_attempts := total_attempts (stats env) + 2,
           failed := failed (stats env) + 2,
           auth_failures := auth_failures (stats env) + 1\<rparr>\<rparr>)"
  by (simp add: GMQTTConnectionClient_connect_def GMQTTConnectionClient_connect_async_def
      g_try_def g_prologue_def g_setup_def GMQTTConnectionClient_on_connect_def Let_def
      fire_def on_request_def connect_event_def error_msg_5)

text \<open>A CONNACK that never comes: the \<open>wait_for\<close> around the library's \<open>connect\<close> raises
  \<open>TimeoutError\<close>, and the attempt ends in \<open>False\<close> with one failed event that carries it.\<close>

lemma g_no_acknowledgment:
  "GMQTTConnectionClient_connect s env broker port use_tls tmo t0 Completes
      (Connect_raises TimeoutError) t2 =
   (Inr False, g_setup (g_prologue s t0) broker port use_tls,
    fire on_request env
      (connect_event ((t2 - t0) * 1000) (Some TimeoutError)
         [(''client_id'', VStr (g_client_id s))]))"
  by (simp add: GMQTTConnectionClient_connect_def GMQTTConnectionClient_connect_async_def
      g_try_def g_prologue_def g_setup_def Let_def)

end
